theory Spec2Isabelle
  imports Complex_Main "HOL-Library.AList" "HOL-Library.Sublist"
begin

section \<open>Python values used by \<open>get_mouser_prices.py\<close>\<close>

text \<open>
  The exceptions that the modelled functions can raise. Messages are dropped; only the
  exception class is kept.
\<close>

datatype py_error =
    ValueError
  | IndexError
  | KeyError
  | ZeroDivisionError
  | AttributeError
  | TypeError
  | FileNotFoundError
  | Exception

text \<open>
  \<open>str.strip()\<close> with no argument removes leading and trailing whitespace. Strings
  are byte strings here, so the whitespace set is the ASCII one of Python
  (tab, newline, vertical tab, form feed, carriage return, the separators 28..31, space).
\<close>

definition is_space :: "char \<Rightarrow> bool" where
  "is_space c = (let n = (of_char c :: nat) in (9 \<le> n \<and> n \<le> 13) \<or> (28 \<le> n \<and> n \<le> 32))"

definition strip :: "string \<Rightarrow> string" where
  "strip s = rev (dropWhile is_space (rev (dropWhile is_space s)))"

section \<open>Price resolver: \<open>DataProcessor.find_price_for_quantity\<close>\<close>

text \<open>
  One element of \<open>price_breaks\<close>: the dictionary \<open>{'Quantity': q, 'Price': s}\<close> of the
  API response, an unbounded Python integer and the price as the API prints it.
\<close>

record break_info =
  Quantity :: int
  Price :: string

text \<open>\<open>s.replace('kr ', '')\<close>: every non-overlapping occurrence, left to right.\<close>

fun remove_kr :: "string \<Rightarrow> string" where
  "remove_kr [] = []"
| "remove_kr (c # cs) =
     (if take 3 (c # cs) = ''kr '' then remove_kr (drop 2 cs) else c # remove_kr cs)"

text \<open>\<open>s.replace(',', '.')\<close>.\<close>

definition comma_to_dot :: "string \<Rightarrow> string" where
  "comma_to_dot s = map (\<lambda>c. if c = CHR '','' then CHR ''.'' else c) s"

definition clean_price :: "string \<Rightarrow> string" where
  "clean_price s = comma_to_dot (remove_kr s)"

text \<open>
  Line 251, the dictionary comprehension. The built-in \<open>float\<close> is a parameter
  \<open>pyfloat\<close>: \<open>None\<close> stands for the \<open>ValueError\<close> of a string that is not a number.
  Python floats are read as real numbers (no rounding, no infinities). The dictionary is
  an association list in insertion order; a repeated quantity overwrites the price and
  keeps its place, as a Python \<open>dict\<close> does.
\<close>

fun price_dict_of ::
  "(string \<Rightarrow> real option) \<Rightarrow> break_info list \<Rightarrow> (int \<times> real) list
     \<Rightarrow> py_error + (int \<times> real) list" where
  "price_dict_of pyfloat [] d = Inr d"
| "price_dict_of pyfloat (b # bs) d =
     (case pyfloat (clean_price (Price b)) of
        None \<Rightarrow> Inl ValueError
      | Some p \<Rightarrow> price_dict_of pyfloat bs (AList.update (Quantity b) p d))"

text \<open>\<open>sorted(price_dict.keys(), reverse=True)\<close>; the keys of a dictionary are distinct.\<close>

definition sorted_quantities :: "(int \<times> real) list \<Rightarrow> int list" where
  "sorted_quantities d = rev (sort (map fst d))"

text \<open>
  Lines 258-265, the \<open>for\<close> loop over \<open>sorted_quantities\<close>, with the two loop variables
  \<open>nearest_price\<close> and \<open>remaining_quantity\<close>. \<open>//\<close> and \<open>%\<close> on Python integers are
  floor division and its remainder, which is \<open>div\<close> and \<open>mod\<close> on \<open>int\<close>; a zero
  divisor raises.
\<close>

fun greedy_loop ::
  "(int \<times> real) list \<Rightarrow> int list \<Rightarrow> real \<Rightarrow> int \<Rightarrow> py_error + (real \<times> int)" where
  "greedy_loop d [] nearest_price remaining_quantity = Inr (nearest_price, remaining_quantity)"
| "greedy_loop d (quantity # qs) nearest_price remaining_quantity =
     (if quantity \<le> remaining_quantity then
        (if quantity = 0 then Inl ZeroDivisionError
         else (case map_of d quantity of
                 None \<Rightarrow> Inl KeyError
               | Some p \<Rightarrow>
                   greedy_loop d qs
                     (nearest_price + real_of_int (remaining_quantity div quantity) * p)
                     (remaining_quantity mod quantity)))
      else greedy_loop d qs nearest_price remaining_quantity)"

text \<open>
  Line 267, the fallback expression. The left operand is evaluated first:
  \<open>sorted_quantities[-1]\<close> raises on the empty list, then the dictionary is read, then
  the right operand divides.
\<close>

definition fallback_price :: "(int \<times> real) list \<Rightarrow> int \<Rightarrow> py_error + real" where
  "fallback_price d target_quantity =
     (case sorted_quantities d of
        [] \<Rightarrow> Inl IndexError
      | q # qs \<Rightarrow>
          (let smallest = last (q # qs) in
           case map_of d smallest of
             None \<Rightarrow> Inl KeyError
           | Some p \<Rightarrow>
               if smallest = 0 then Inl ZeroDivisionError
               else Inr (p * real_of_int (target_quantity div smallest))))"

definition find_price_for_quantity ::
  "(string \<Rightarrow> real option) \<Rightarrow> break_info list \<Rightarrow> int \<Rightarrow> py_error + real" where
  "find_price_for_quantity pyfloat price_breaks target_quantity =
     (case price_dict_of pyfloat price_breaks [] of
        Inl e \<Rightarrow> Inl e
      | Inr price_dict \<Rightarrow>
          (case map_of price_dict target_quantity of
             Some p \<Rightarrow> Inr p
           | None \<Rightarrow>
               (case greedy_loop price_dict (sorted_quantities price_dict) 0 target_quantity of
                  Inl e \<Rightarrow> Inl e
                | Inr (nearest_price, remaining_quantity) \<Rightarrow>
                    if nearest_price > 0 then Inr nearest_price
                    else fallback_price price_dict target_quantity)))"

text \<open>
  An instance of the \<open>float\<close> parameter for running the model: the plain decimal literals
  \<open>digits\<close> and \<open>digits.digits\<close>, on which it is the value Python's \<open>float\<close> reads (up to
  rounding). Other strings are outside this instance; the general theorems below hold
  for every parser.
\<close>

definition digit_of :: "char \<Rightarrow> nat option" where
  "digit_of c = (let n = (of_char c :: nat) in if 48 \<le> n \<and> n \<le> 57 then Some (n - 48) else None)"

fun digits_value :: "string \<Rightarrow> nat \<Rightarrow> nat option" where
  "digits_value [] acc = Some acc"
| "digits_value (c # cs) acc =
     (case digit_of c of None \<Rightarrow> None | Some k \<Rightarrow> digits_value cs (10 * acc + k))"

definition decimal_float :: "string \<Rightarrow> real option" where
  "decimal_float s =
     (let ip = takeWhile (\<lambda>c. c \<noteq> CHR ''.'') s;
          rest = dropWhile (\<lambda>c. c \<noteq> CHR ''.'') s
      in if ip = [] then None
         else (case digits_value ip 0 of
                 None \<Rightarrow> None
               | Some i \<Rightarrow>
                   (case rest of
                      [] \<Rightarrow> Some (real i)
                    | dot # fp \<Rightarrow>
                        (if fp = [] then None
                         else (case digits_value fp 0 of
                                 None \<Rightarrow> None
                               | Some f \<Rightarrow> Some (real i + real f / 10 ^ length fp))))))"

text \<open>
  The reading of step 3 of the specified algorithm, kept apart from the code: the breaks
  sorted by descending quantity; for each break that fits into the remainder, the whole
  multiples \<open>remaining // quantity\<close> are charged at the unit price and the remainder is
  reduced by \<open>multiples * quantity\<close>. The result is the total and what is left over.
\<close>

fun spec_greedy :: "(int \<times> real) list \<Rightarrow> int \<Rightarrow> real \<times> int" where
  "spec_greedy [] remaining = (0, remaining)"
| "spec_greedy ((quantity, unit_price) # smaller) remaining =
     (if quantity \<le> remaining then
        (let multiples = remaining div quantity;
             (total, left) = spec_greedy smaller (remaining - multiples * quantity)
         in (real_of_int multiples * unit_price + total, left))
      else spec_greedy smaller remaining)"

definition breaks_descending :: "(int \<times> real) list \<Rightarrow> (int \<times> real) list" where
  "breaks_descending d = rev (sort_key fst d)"

text \<open>The break tables of the specification's examples, as the API prints them.\<close>

definition example_breaks :: "break_info list" where
  "example_breaks =
     [\<lparr>Quantity = 1, Price = ''kr 10,0''\<rparr>,
      \<lparr>Quantity = 10, Price = ''kr 8,0''\<rparr>,
      \<lparr>Quantity = 100, Price = ''kr 6,0''\<rparr>]"

definition single_break :: "break_info list" where
  "single_break = [\<lparr>Quantity = 100, Price = ''kr 5,0''\<rparr>]"

section \<open>Credential: \<open>APIManager.get_api_key\<close>\<close>

text \<open>
  What \<open>open('mouser_api_keys.yaml')\<close> and \<open>yaml.safe_load\<close> can give. A value under
  a key is a string or something without \<open>.strip()\<close> (a number, a list, \<open>None\<close>); a
  document is empty (\<open>None\<close>), a mapping, or something without \<open>.get\<close>.
\<close>

datatype yaml_value = YStr string | YOther

datatype yaml_doc = YNull | YMapping "(string \<times> yaml_value) list" | YScalar

datatype config_file =
    Missing
  | Unreadable
  | Invalid_yaml
  | Loaded yaml_doc

text \<open>Lines 30-42, the body of the \<open>try\<close>; \<open>env\<close> is \<open>os.environ.get(...)\<close>.\<close>

definition get_api_key_body :: "string option \<Rightarrow> config_file \<Rightarrow> py_error + string" where
  "get_api_key_body env cfg =
     (case (case env of None \<Rightarrow> None | Some k \<Rightarrow> if k = [] then None else Some k) of
        Some api_key \<Rightarrow> Inr api_key
      | None \<Rightarrow>
          (case cfg of
             Missing \<Rightarrow> Inl FileNotFoundError
           | Unreadable \<Rightarrow> Inl Exception
           | Invalid_yaml \<Rightarrow> Inl Exception
           | Loaded keys \<Rightarrow>
               (case keys of
                  YNull \<Rightarrow> Inl ValueError
                | YScalar \<Rightarrow> Inl AttributeError
                | YMapping kvs \<Rightarrow>
                    (case (case map_of kvs ''search_api_key'' of
                             None \<Rightarrow> YStr []
                           | Some v \<Rightarrow> v) of
                       YOther \<Rightarrow> Inl AttributeError
                     | YStr v \<Rightarrow>
                         (if strip v = [] then Inl ValueError else Inr (strip v))))))"

text \<open>
  Lines 43-46, the handlers: \<open>FileNotFoundError\<close> is raised again as such, every other
  exception as a plain \<open>Exception\<close>.
\<close>

definition get_api_key :: "string option \<Rightarrow> config_file \<Rightarrow> py_error + string" where
  "get_api_key env cfg =
     (case get_api_key_body env cfg of
        Inr api_key \<Rightarrow> Inr api_key
      | Inl FileNotFoundError \<Rightarrow> Inl FileNotFoundError
      | Inl e \<Rightarrow> Inl Exception)"

text \<open>
  The specification's words for the two sources: the environment supplies a key when the
  variable is set and not empty; the configuration file supplies one when it is a mapping
  whose \<open>search_api_key\<close> is a string that is not blank.
\<close>

definition env_supplied_key :: "string option \<Rightarrow> string option" where
  "env_supplied_key env = (case env of Some k \<Rightarrow> if k \<noteq> [] then Some k else None | None \<Rightarrow> None)"

definition config_supplied_key :: "config_file \<Rightarrow> string option" where
  "config_supplied_key cfg =
     (case cfg of
        Loaded (YMapping kvs) \<Rightarrow>
          (case map_of kvs ''search_api_key'' of
             Some (YStr v) \<Rightarrow> if strip v \<noteq> [] then Some (strip v) else None
           | _ \<Rightarrow> None)
      | _ \<Rightarrow> None)"

section \<open>Console, network and clock\<close>

text \<open>
  The side effects of a run, in order: a line printed by \<open>log_message\<close>, a call of
  \<open>requests.post\<close> (API key, part number, search option), a call of \<open>time.sleep\<close>.
  Where a printed line ends with the text of an exception, the line is kept up to there.
\<close>

datatype event =
    Log string
  | is_Post: Post string string string
  | Sleep nat

definition post_count :: "event list \<Rightarrow> nat" where
  "post_count tr = length (filter is_Post tr)"

text \<open>
  A decoded response body and its truth value in \<open>if result:\<close>: \<open>None\<close>, \<open>False\<close>,
  zero, the empty string, list and dictionary are false.
\<close>

datatype json =
    JNull
  | JBool bool
  | JNumber real
  | JString string
  | JArray "json list"
  | JObject "(string \<times> json) list"

fun truthy :: "json \<Rightarrow> bool" where
  "truthy JNull = False"
| "truthy (JBool b) = b"
| "truthy (JNumber x) = (x \<noteq> 0)"
| "truthy (JString s) = (s \<noteq> [])"
| "truthy (JArray xs) = (xs \<noteq> [])"
| "truthy (JObject kvs) = (kvs \<noteq> [])"

text \<open>
  What lines 65-67 do on one call: the body decoded by \<open>response.json()\<close>, the
  \<open>HTTPError\<close> of \<open>raise_for_status\<close>, or any other exception of \<open>requests\<close>
  (no connection, a timeout, a body that is not JSON). The network is a parameter
  \<open>net\<close>: the outcome of the \<open>n\<close>-th call of the run.
\<close>

datatype post_outcome =
    Responded json
  | HTTPError
  | RequestException

definition quoted :: "string \<Rightarrow> string" where
  "quoted s = [CHR 0x27] @ s @ [CHR 0x27]"

text \<open>
  \<open>APIManager.search_part_number\<close>, lines 61-73. Both handlers print and return
  \<open>None\<close>; no path of the function raises, so the result is always \<open>Inr\<close>.
\<close>

definition search_part_number ::
  "post_outcome \<Rightarrow> string \<Rightarrow> string \<Rightarrow> string \<Rightarrow> event list \<times> (py_error + json option)" where
  "search_part_number outcome part_number api_key option =
     (case outcome of
        Responded j \<Rightarrow> ([Post api_key part_number option], Inr (Some j))
      | HTTPError \<Rightarrow>
          ([Post api_key part_number option,
            Log (''HTTP error occurred while searching for '' @ quoted part_number @ '': '')],
           Inr None)
      | RequestException \<Rightarrow>
          ([Post api_key part_number option,
            Log (''Error occurred while searching for '' @ quoted part_number @ '': '')],
           Inr None))"

section \<open>Fetch loop: \<open>DataProcessor.read_csv_and_search_parts\<close>\<close>

text \<open>
  The variables of the \<open>while\<close> loop of lines 144-160. \<open>results\<close> is a Python
  dictionary: an association list in which assigning to a key that is present
  overwrites its value.
\<close>

record loop_state =
  index :: nat
  results :: "(string \<times> json) list"
  api_error_parts :: "string list"
  trace :: "event list"

definition wait_time :: nat where
  "wait_time = 15"

text \<open>
  One iteration, lines 145-160, entered with \<open>index < len(mouser_part_numbers)\<close>. The
  \<open>Inl\<close> case is the \<open>except Exception\<close> handler of the loop.
\<close>

definition loop_body ::
  "(nat \<Rightarrow> post_outcome) \<Rightarrow> string \<Rightarrow> string \<Rightarrow> string list \<Rightarrow> loop_state \<Rightarrow> loop_state" where
  "loop_body net api_key option mouser_part_numbers s =
     (let part_number = mouser_part_numbers ! index s;
          announced = trace s @ [Log (''Searching for part number: '' @ part_number)];
          (evs, outcome) =
             search_part_number (net (post_count (trace s))) part_number api_key option;
          waiting = s\<lparr>trace := announced @ evs @
                       [Log ''Rate limit reached. Waiting for 15 seconds before retrying...'',
                        Sleep wait_time]\<rparr>
      in case outcome of
           Inr None \<Rightarrow> waiting
         | Inr (Some result) \<Rightarrow>
             if truthy result
             then s\<lparr>index := index s + 1,
                    results := AList.update part_number result (results s),
                    trace := announced @ evs\<rparr>
             else waiting
         | Inl e \<Rightarrow>
             s\<lparr>index := index s + 1,
               api_error_parts := api_error_parts s @ [part_number],
               trace := announced @ evs @
                  [Log (''Error searching for part number '' @ quoted part_number @ '': '')]\<rparr>)"

text \<open>
  The \<open>while\<close> loop. Nothing bounds the number of iterations, so the loop is a partial
  function: \<open>None\<close> is a run that never leaves the loop.
\<close>

partial_function (option) fetch_loop ::
  "(nat \<Rightarrow> post_outcome) \<Rightarrow> string \<Rightarrow> string \<Rightarrow> string list \<Rightarrow> loop_state \<Rightarrow> loop_state option" where
  "fetch_loop net api_key option mouser_part_numbers s =
     (if index s < length mouser_part_numbers
      then fetch_loop net api_key option mouser_part_numbers
             (loop_body net api_key option mouser_part_numbers s)
      else Some s)"

declare fetch_loop.simps [code]

text \<open>
  The outcomes of one call as the loop tells them apart. A call succeeds when it returns
  a value that is true in \<open>if result:\<close>. A soft failure is a call that completes with an
  empty or null body.
\<close>

definition success :: "post_outcome \<Rightarrow> bool" where
  "success outcome = (case outcome of Responded j \<Rightarrow> truthy j | _ \<Rightarrow> False)"


text \<open>What one iteration prints, posts and sleeps: the handler's line, the attempt, the wait.\<close>

definition search_log :: "post_outcome \<Rightarrow> string \<Rightarrow> event list" where
  "search_log outcome part_number =
     (case outcome of
        Responded j \<Rightarrow> []
      | HTTPError \<Rightarrow> [Log (''HTTP error occurred while searching for '' @ quoted part_number @ '': '')]
      | RequestException \<Rightarrow> [Log (''Error occurred while searching for '' @ quoted part_number @ '': '')])"

definition attempt_events :: "string \<Rightarrow> string \<Rightarrow> string \<Rightarrow> event list" where
  "attempt_events api_key part_number option =
     [Log (''Searching for part number: '' @ part_number), Post api_key part_number option]"

definition wait_events :: "event list" where
  "wait_events = [Log ''Rate limit reached. Waiting for 15 seconds before retrying...'', Sleep 15]"

text \<open>
  The part numbers of the calls in a trace, in order, and those among them whose call
  succeeded: the \<open>i\<close>-th call of the run has the outcome \<open>net i\<close>.
\<close>

definition post_parts :: "event list \<Rightarrow> string list" where
  "post_parts tr = concat (map (\<lambda>e. case e of Post k p opt \<Rightarrow> [p] | _ \<Rightarrow> []) tr)"

definition fetched :: "(nat \<Rightarrow> post_outcome) \<Rightarrow> event list \<Rightarrow> string list" where
  "fetched net tr = map snd (filter (\<lambda>(i, p). success (net i)) (enumerate 0 (post_parts tr)))"

text \<open>The state in which the loop is entered (lines 119, 140, 141).\<close>

definition initial_state :: "event list \<Rightarrow> loop_state" where
  "initial_state start = \<lparr>index = 0, results = [], api_error_parts = [], trace = start\<rparr>"

text \<open>
  The loop invariant: the keys of \<open>results\<close> are distinct, they are the part numbers
  fetched so far, and they are the part numbers before \<open>index\<close>; the error list is empty.
\<close>

definition loop_inv :: "(nat \<Rightarrow> post_outcome) \<Rightarrow> string list \<Rightarrow> loop_state \<Rightarrow> bool" where
  "loop_inv net parts s \<longleftrightarrow>
     distinct (map fst (results s)) \<and> api_error_parts s = [] \<and>
     fst ` set (results s) = set (fetched net (trace s)) \<and>
     index s \<le> length parts \<and>
     set (take (index s) parts) = fst ` set (results s)"

section \<open>Input: \<open>extract_urls\<close> and \<open>extract_part_numbers_from_urls\<close>\<close>

text \<open>
  The CSV file as \<open>csv.DictReader\<close> presents it: the header (\<open>None\<close> for an empty
  file) and, for each row, the cell under \<open>Datasheet\<close> (\<open>None\<close> for a row that is too
  short to have one).
\<close>

record csv_file =
  fieldnames :: "string list option"
  datasheet_cells :: "string option list"

fun datasheet_urls :: "string option list \<Rightarrow> py_error + string list" where
  "datasheet_urls [] = Inr []"
| "datasheet_urls (None # cells) = Inl AttributeError"
| "datasheet_urls (Some c # cells) =
     (case datasheet_urls cells of
        Inl e \<Rightarrow> Inl e
      | Inr urls \<Rightarrow> Inr (if strip c \<noteq> [] then strip c # urls else urls))"

definition extract_urls :: "csv_file \<Rightarrow> event list \<times> (py_error + string list)" where
  "extract_urls csv =
     (case fieldnames csv of
        None \<Rightarrow> ([], Inl TypeError)
      | Some names \<Rightarrow>
          if ''Datasheet'' \<notin> set names
          then ([Log ''Error: The CSV file does not have a 'Datasheet' column.''], Inr [])
          else ([], datasheet_urls (datasheet_cells csv)))"

text \<open>
  The two attributes read from the result of \<open>urllib.parse.urlparse\<close>. The parser is a
  parameter \<open>urlparse\<close>; \<open>Inl\<close> is the exception it raises on a string it rejects.
\<close>

record parse_result =
  netloc :: string
  path :: string

text \<open>\<open>str.lower()\<close> on ASCII letters.\<close>

definition lower_char :: "char \<Rightarrow> char" where
  "lower_char c =
     (let n = (of_char c :: nat) in if 65 \<le> n \<and> n \<le> 90 then char_of (n + 32) else c)"

definition lower :: "string \<Rightarrow> string" where
  "lower s = map lower_char s"

text \<open>\<open>s.split(sep)\<close> for a separator of one character; the result is never empty.\<close>

fun split_on :: "char \<Rightarrow> string \<Rightarrow> string list" where
  "split_on sep [] = [[]]"
| "split_on sep (c # cs) =
     (if c = sep then [] # split_on sep cs
      else (case split_on sep cs of
              [] \<Rightarrow> [[c]]
            | w # ws \<Rightarrow> (c # w) # ws))"

text \<open>\<open>xs[-1]\<close>.\<close>

definition last_item :: "'a list \<Rightarrow> py_error + 'a" where
  "last_item xs = (case xs of [] \<Rightarrow> Inl IndexError | y # ys \<Rightarrow> Inr (last (y # ys)))"

text \<open>
  Lines 207-214, the body of the \<open>try\<close> for one URL: \<open>Inr (Some part_number)\<close> for a
  Mouser URL, \<open>Inr None\<close> for another URL, \<open>Inl\<close> for an exception.
\<close>

definition classify_url ::
  "(string \<Rightarrow> py_error + parse_result) \<Rightarrow> string \<Rightarrow> py_error + string option" where
  "classify_url urlparse url =
     (case urlparse url of
        Inl e \<Rightarrow> Inl e
      | Inr parsed_url \<Rightarrow>
          (let domain = lower (netloc parsed_url)
           in if sublist ''mouser.com'' domain
              then (case last_item (split_on CHR ''/'' (path parsed_url)) of
                      Inl e \<Rightarrow> Inl e
                    | Inr segment \<Rightarrow> Inr (Some (strip segment)))
              else Inr None))"

text \<open>The three lists of lines 201-203, and what the handler prints.\<close>

record url_classes =
  mouser_part_numbers :: "string list"
  non_mouser_urls :: "string list"
  error_urls :: "string list"
  printed :: "event list"

fun extract_loop ::
  "(string \<Rightarrow> py_error + parse_result) \<Rightarrow> string list \<Rightarrow> url_classes \<Rightarrow> url_classes" where
  "extract_loop urlparse [] acc = acc"
| "extract_loop urlparse (url # urls) acc =
     extract_loop urlparse urls
       (case classify_url urlparse url of
          Inr (Some part_number) \<Rightarrow>
            acc\<lparr>mouser_part_numbers := mouser_part_numbers acc @ [part_number]\<rparr>
        | Inr None \<Rightarrow> acc\<lparr>non_mouser_urls := non_mouser_urls acc @ [url]\<rparr>
        | Inl e \<Rightarrow>
            acc\<lparr>error_urls := error_urls acc @ [url],
                printed := printed acc @ [Log (''Error processing URL '' @ quoted url @ '': '')]\<rparr>)"

definition extract_part_numbers_from_urls ::
  "(string \<Rightarrow> py_error + parse_result) \<Rightarrow> string list \<Rightarrow> url_classes" where
  "extract_part_numbers_from_urls urlparse urls =
     extract_loop urlparse urls
       \<lparr>mouser_part_numbers = [], non_mouser_urls = [], error_urls = [], printed = []\<rparr>"

text \<open>
  An instance of the \<open>urlparse\<close> parameter for running the model, for URLs of the shape
  \<open>scheme://netloc/path?query#fragment\<close> without parameters: the network location runs
  from \<open>//\<close> to the next \<open>/\<close>, \<open>?\<close> or \<open>#\<close>, the path from there to \<open>?\<close> or \<open>#\<close>, and a
  network location with one square bracket but not the other is rejected. A string
  without \<open>://\<close> has no network location.
\<close>

definition url_end :: "char \<Rightarrow> bool" where
  "url_end c = (c = CHR ''?'' \<or> c = CHR ''#'')"

definition simple_urlparse :: "string \<Rightarrow> py_error + parse_result" where
  "simple_urlparse url =
     (let after_scheme = dropWhile (\<lambda>c. c \<noteq> CHR '':'') url
      in if take 3 after_scheme = ''://''
         then (let rest = drop 3 after_scheme;
                   loc = takeWhile (\<lambda>c. c \<noteq> CHR ''/'' \<and> \<not> url_end c) rest;
                   tail = dropWhile (\<lambda>c. c \<noteq> CHR ''/'' \<and> \<not> url_end c) rest
               in if (CHR ''['' \<in> set loc) \<noteq> (CHR '']'' \<in> set loc) then Inl ValueError
                  else Inr \<lparr>netloc = loc, path = takeWhile (\<lambda>c. \<not> url_end c) tail\<rparr>)
         else Inr \<lparr>netloc = [], path = takeWhile (\<lambda>c. \<not> url_end c) url\<rparr>)"

text \<open>The part number that one URL contributes to \<open>mouser_part_numbers\<close>, if any.\<close>

definition supplier_of :: "(string \<Rightarrow> py_error + parse_result) \<Rightarrow> string \<Rightarrow> string list" where
  "supplier_of urlparse url =
     (case classify_url urlparse url of Inr (Some part_number) \<Rightarrow> [part_number] | _ \<Rightarrow> [])"

text \<open>A Mouser URL, a URL of another host and a string that the parser rejects.\<close>

definition sample_urls :: "string list" where
  "sample_urls =
     [''https://www.mouser.com/ProductDetail/595-TPS54331DR'',
      ''https://example.org/datasheets/part.pdf'',
      ''http://[broken/x'']"

section \<open>The whole of \<open>read_csv_and_search_parts\<close>\<close>

definition report :: "string \<Rightarrow> string list \<Rightarrow> bool \<Rightarrow> event list" where
  "report heading items blank_line =
     (if items = [] then []
      else Log heading # map Log items @ (if blank_line then [Log []] else []))"

text \<open>
  Lines 118-167. The result is what the run printed, posted and slept, with the
  dictionary returned or the exception raised; \<open>None\<close> is a run that never returns.
  The file is taken to be readable (\<open>main\<close> checks that it exists).
\<close>

definition read_csv_and_search_parts ::
  "string option \<Rightarrow> config_file \<Rightarrow> csv_file \<Rightarrow> (string \<Rightarrow> py_error + parse_result)
     \<Rightarrow> (nat \<Rightarrow> post_outcome) \<Rightarrow> string
     \<Rightarrow> (event list \<times> (py_error + (string \<times> json) list)) option" where
  "read_csv_and_search_parts env cfg csv urlparse net option =
     (case get_api_key env cfg of
        Inl e \<Rightarrow> Some ([], Inl e)
      | Inr api_key \<Rightarrow>
          (case extract_urls csv of
             (tr, Inl e) \<Rightarrow> Some (tr, Inl e)
           | (tr, Inr urls) \<Rightarrow>
               if urls = []
               then Some (tr @ [Log ''Error: No URLs extracted from the CSV file.''], Inr [])
               else
                 (let cl = extract_part_numbers_from_urls urlparse urls;
                      start = tr @ printed cl
                        @ report (CHR 0x0A # ''The following URLs are not from Mouser and will not be processed:'')
                            (non_mouser_urls cl) True
                        @ report (CHR 0x0A # ''The following URLs caused errors during processing:'')
                            (error_urls cl) True
                  in case fetch_loop net api_key option (mouser_part_numbers cl)
                            \<lparr>index = 0, results = [], api_error_parts = [], trace = start\<rparr> of
                       None \<Rightarrow> None
                     | Some s \<Rightarrow>
                         Some (trace s
                                 @ report (CHR 0x0A # ''The following part numbers caused errors during API search:'')
                                     (api_error_parts s) False,
                               Inr (results s)))))"

section \<open>Properties of the price resolver\<close>

lemma price_dict_of_keys:
  "price_dict_of pyfloat bs acc = Inr d \<Longrightarrow> fst ` set d = fst ` set acc \<union> Quantity ` set bs"
  by (induction bs arbitrary: acc) (auto simp: AList.dom_update split: option.splits)

lemma price_dict_of_distinct:
  "price_dict_of pyfloat bs acc = Inr d \<Longrightarrow> distinct (map fst acc) \<Longrightarrow> distinct (map fst d)"
  by (induction bs arbitrary: acc) (auto simp: AList.distinct_update split: option.splits)

text \<open>
  C6. On the empty price-break list the exact-match test fails for every target quantity,
  the loop does nothing, and the fallback expression indexes the empty list of sorted
  quantities: the function raises \<open>IndexError\<close> instead of returning a price.
\<close>

theorem empty_breaks_raise_IndexError:
  "find_price_for_quantity pyfloat [] target_quantity = Inl IndexError"
  by (simp add: find_price_for_quantity_def fallback_price_def sorted_quantities_def)

lemma map_insort_key: "map f (insort_key f x xs) = insort (f x) (map f xs)"
  by (induction xs) auto

lemma map_sort_key: "map f (sort_key f xs) = sort (map f xs)"
  by (induction xs) (auto simp: map_insort_key)

lemma quantities_breaks_descending: "map fst (breaks_descending d) = sorted_quantities d"
  by (simp add: breaks_descending_def sorted_quantities_def rev_map [symmetric] map_sort_key)

lemma greedy_loop_spec:
  assumes "distinct (map fst d)" and "set ps \<subseteq> set d" and "\<forall>q\<in>fst ` set ps. 0 < q"
  shows "greedy_loop d (map fst ps) acc remaining =
           Inr (acc + fst (spec_greedy ps remaining), snd (spec_greedy ps remaining))"
  using assms
proof (induction ps arbitrary: acc remaining)
  case Nil
  then show ?case by simp
next
  case (Cons a ps)
  obtain q p where a: "a = (q, p)" by (cases a)
  from Cons.prems a have look: "map_of d q = Some p" and pos: "0 < q" by auto
  have sub: "remaining - remaining div q * q = remaining mod q"
    by (simp add: minus_div_mult_eq_mod)
  from Cons.prems have IH: "\<And>acc remaining. greedy_loop d (map fst ps) acc remaining =
           Inr (acc + fst (spec_greedy ps remaining), snd (spec_greedy ps remaining))"
    by (intro Cons.IH) auto
  show ?case using pos look
    by (simp add: a IH sub Let_def split: prod.splits)
qed

lemma hd_sort_Min: "xs \<noteq> [] \<Longrightarrow> hd (sort xs) = Min (set xs)"
proof -
  assume ne: "xs \<noteq> []"
  then have ne': "sort xs \<noteq> []" by (metis length_sort length_0_conv)
  then obtain y ys where s: "sort xs = y # ys" by (cases "sort xs") auto
  have "sorted (y # ys)" using sorted_sort[of xs] s by simp
  then have "\<forall>z\<in>set (y # ys). y \<le> z" by auto 
  moreover have "set (y # ys) = set xs" using s set_sort[of "\<lambda>x. x" xs] by metis
  ultimately have "Min (set xs) = y" by (intro Min_eqI) auto
  then show ?thesis using s by simp
qed


lemma price_dict_keys: "price_dict_of pyfloat bs [] = Inr d \<Longrightarrow> fst ` set d = Quantity ` set bs"
  using price_dict_of_keys [of pyfloat bs "[]" d] by simp

lemma price_dict_distinct: "price_dict_of pyfloat bs [] = Inr d \<Longrightarrow> distinct (map fst d)"
  using price_dict_of_distinct [of pyfloat bs "[]" d] by simp

lemma sorted_quantities_descending: 
  "distinct (map fst d) \<Longrightarrow> sorted_wrt (\<lambda>a b. a > b) (sorted_quantities d)"
proof -
  assume "distinct (map fst d)"
  then have "distinct (sort (map fst d))" by simp
  moreover have "sorted (sort (map fst d))" by simp
  ultimately have "sorted_wrt (<) (sort (map fst d))" 
    by (simp add: strict_sorted_iff)
  then show ?thesis by (simp add: sorted_quantities_def sorted_wrt_rev)
qed

lemma greedy_loop_breaks:
  assumes "price_dict_of pyfloat bs [] = Inr d" and "\<forall>b\<in>set bs. 0 < Quantity b"
  shows "greedy_loop d (sorted_quantities d) 0 target = Inr (spec_greedy (breaks_descending d) target)"
proof -
  have "set (breaks_descending d) \<subseteq> set d" by (simp add: breaks_descending_def)
  moreover have "\<forall>q\<in>fst ` set (breaks_descending d). 0 < q"
    using assms price_dict_keys [OF assms(1)] by (auto simp: breaks_descending_def)
  ultimately have "greedy_loop d (map fst (breaks_descending d)) 0 target =
      Inr (0 + fst (spec_greedy (breaks_descending d) target), snd (spec_greedy (breaks_descending d) target))"
    using price_dict_distinct [OF assms(1)] by (intro greedy_loop_spec) 
  then show ?thesis by (simp add: quantities_breaks_descending)
qed

text \<open>
  C2. Let every price string parse, so that line 251 builds the dictionary \<open>d\<close>, let the
  listed quantities be positive and the target quantity be none of them. Then the code
  sorts the quantities in strictly descending order, and its loop is the greedy
  decomposition of the specification: for each quantity that is at most the remainder it
  adds \<open>remaining // quantity\<close> times the unit price and reduces the remainder by those
  whole multiples. The function returns this total whenever it is positive (and the
  fallback expression otherwise). For the breaks \<open>{1: 10.0, 10: 8.0, 100: 6.0}\<close> and the
  target quantity 25 the result is 66.0.
\<close>

theorem greedy_decomposition:
  "(price_dict_of pyfloat price_breaks [] = Inr d
      \<and> (\<forall>b\<in>set price_breaks. 0 < Quantity b)
      \<and> (\<forall>b\<in>set price_breaks. Quantity b \<noteq> target_quantity)
    \<longrightarrow> sorted_wrt (\<lambda>a b. a > b) (sorted_quantities d)
      \<and> set (sorted_quantities d) = Quantity ` set price_breaks
      \<and> greedy_loop d (sorted_quantities d) 0 target_quantity =
            Inr (spec_greedy (breaks_descending d) target_quantity)
      \<and> find_price_for_quantity pyfloat price_breaks target_quantity =
            (if 0 < fst (spec_greedy (breaks_descending d) target_quantity)
             then Inr (fst (spec_greedy (breaks_descending d) target_quantity))
             else fallback_price d target_quantity))
   \<and> find_price_for_quantity decimal_float example_breaks 25 = Inr 66"
proof (intro conjI impI)
  show "find_price_for_quantity decimal_float example_breaks 25 = Inr 66"
    unfolding example_breaks_def by code_simp
next
  assume h: "price_dict_of pyfloat price_breaks [] = Inr d
      \<and> (\<forall>b\<in>set price_breaks. 0 < Quantity b)
      \<and> (\<forall>b\<in>set price_breaks. Quantity b \<noteq> target_quantity)"
  then have pd: "price_dict_of pyfloat price_breaks [] = Inr d" 
    and pos: "\<forall>b\<in>set price_breaks. 0 < Quantity b"
    and nt: "\<forall>b\<in>set price_breaks. Quantity b \<noteq> target_quantity" by auto
  show "sorted_wrt (\<lambda>a b. a > b) (sorted_quantities d)"
    using price_dict_distinct [OF pd] by (rule sorted_quantities_descending)
  show "set (sorted_quantities d) = Quantity ` set price_breaks"
    using price_dict_keys [OF pd] by (simp add: sorted_quantities_def)
  show gl: "greedy_loop d (sorted_quantities d) 0 target_quantity =
            Inr (spec_greedy (breaks_descending d) target_quantity)"
    using pd pos by (rule greedy_loop_breaks)
  have "target_quantity \<notin> fst ` set d" using nt price_dict_keys [OF pd] by auto
  then have "map_of d target_quantity = None" by (simp add: map_of_eq_None_iff)
  then show "find_price_for_quantity pyfloat price_breaks target_quantity =
            (if 0 < fst (spec_greedy (breaks_descending d) target_quantity)
             then Inr (fst (spec_greedy (breaks_descending d) target_quantity))
             else fallback_price d target_quantity)"
    by (simp add: find_price_for_quantity_def pd gl split: prod.splits)
qed

theorem greedy_decomposition_witness:
  "price_dict_of decimal_float example_breaks [] = Inr [(1, 10), (10, 8), (100, 6)]
   \<and> list_all (\<lambda>b. 0 < Quantity b) example_breaks
   \<and> list_all (\<lambda>b. Quantity b \<noteq> 25) example_breaks
   \<and> spec_greedy (breaks_descending [(1, 10), (10, 8), (100, 6)]) 25 = (66, 0)
   \<and> greedy_loop [(1, 10), (10, 8), (100, 6)] (sorted_quantities [(1, 10), (10, 8), (100, 6)]) 0 25 = Inr (66, 0)"
proof -
  have h1: "price_dict_of decimal_float example_breaks [] = Inr [(1, 10), (10, 8), (100, 6)]"
    unfolding example_breaks_def by code_simp
  have h3: "\<forall>b\<in>set example_breaks. 0 < Quantity b" by (simp add: example_breaks_def)
  have h4: "\<forall>b\<in>set example_breaks. Quantity b \<noteq> 25" by (simp add: example_breaks_def)
  have h5: "spec_greedy (breaks_descending [(1, 10), (10, 8), (100, 6)]) 25 = (66, 0)"
    by code_simp
  from greedy_decomposition [of decimal_float example_breaks "[(1, 10), (10, 8), (100, 6)]" 25] h1 h3 h4
  have "greedy_loop [(1, 10), (10, 8), (100, 6)] (sorted_quantities [(1, 10), (10, 8), (100, 6)]) 0 25
          = Inr (spec_greedy (breaks_descending [(1, 10), (10, 8), (100, 6)]) 25)"
    by blast
  with h1 h3 h4 h5 show ?thesis by (simp add: list_all_iff)
qed


lemma price_dict_of_total:
  "\<forall>b\<in>set bs. pyfloat (clean_price (Price b)) \<noteq> None \<Longrightarrow>
   \<exists>d. price_dict_of pyfloat bs acc = Inr d"
  by (induction bs arbitrary: acc) auto

lemma price_dict_of_other:
  "price_dict_of pyfloat bs acc = Inr d \<Longrightarrow> q \<notin> Quantity ` set bs \<Longrightarrow>
   map_of d q = map_of acc q"
  by (induction bs arbitrary: acc) (auto simp: AList.update_conv' split: option.splits)

lemma price_dict_of_entry:
  "price_dict_of pyfloat bs acc = Inr d \<Longrightarrow> distinct (map Quantity bs) \<Longrightarrow> b \<in> set bs \<Longrightarrow>
   pyfloat (clean_price (Price b)) = Some p \<Longrightarrow> map_of d (Quantity b) = Some p"
proof (induction bs arbitrary: acc)
  case Nil
  then show ?case by simp
next
  case (Cons x xs)
  show ?case
  proof (cases "b = x")
    case True
    with Cons.prems have run: "price_dict_of pyfloat xs (AList.update (Quantity b) p acc) = Inr d"
      and fresh: "Quantity b \<notin> Quantity ` set xs" by auto
    from price_dict_of_other [OF run fresh] show ?thesis by (simp add: AList.update_conv')
  next
    case False
    with Cons.prems have mem: "b \<in> set xs" and dist: "distinct (map Quantity xs)" by auto
    from Cons.prems obtain px where
      run: "price_dict_of pyfloat xs (AList.update (Quantity x) px acc) = Inr d"
      by (auto split: option.splits)
    from Cons.IH [OF run dist mem Cons.prems(4)] show ?thesis .
  qed
qed

text \<open>
  C3. Let every price string of the list parse and the quantities be distinct. For every
  entry of the list, the function called with that entry's quantity returns the number
  parsed from that entry's own \<open>Price\<close>: the unit price as it is, not multiplied by the
  quantity. The same holds for every entry of the dictionary that line 251 builds. For
  the breaks \<open>{1: 10.0, 10: 8.0, 100: 6.0}\<close> and the target quantity 10 the result is 8.0.
\<close>

theorem exact_match_returns_unit_price:
  "((\<forall>c\<in>set price_breaks. pyfloat (clean_price (Price c)) \<noteq> None)
      \<and> distinct (map Quantity price_breaks)
      \<and> b \<in> set price_breaks
      \<and> pyfloat (clean_price (Price b)) = Some unit_price
      \<longrightarrow> find_price_for_quantity pyfloat price_breaks (Quantity b) = Inr unit_price)
   \<and> (price_dict_of pyfloat price_breaks [] = Inr d \<and> (target_quantity, unit_price) \<in> set d
      \<longrightarrow> find_price_for_quantity pyfloat price_breaks target_quantity = Inr unit_price)
   \<and> find_price_for_quantity decimal_float example_breaks 10 = Inr 8"
proof (intro conjI impI)
  show "find_price_for_quantity decimal_float example_breaks 10 = Inr 8"
    unfolding example_breaks_def by code_simp
next
  assume "price_dict_of pyfloat price_breaks [] = Inr d \<and> (target_quantity, unit_price) \<in> set d"
  then have pd: "price_dict_of pyfloat price_breaks [] = Inr d"
    and mem: "(target_quantity, unit_price) \<in> set d" by auto
  from price_dict_distinct [OF pd] mem have "map_of d target_quantity = Some unit_price"
    by simp
  then show "find_price_for_quantity pyfloat price_breaks target_quantity = Inr unit_price"
    by (simp add: find_price_for_quantity_def pd)
next
  assume h: "(\<forall>c\<in>set price_breaks. pyfloat (clean_price (Price c)) \<noteq> None)
      \<and> distinct (map Quantity price_breaks)
      \<and> b \<in> set price_breaks
      \<and> pyfloat (clean_price (Price b)) = Some unit_price"
  then obtain d' where pd: "price_dict_of pyfloat price_breaks [] = Inr d'"
    using price_dict_of_total [of price_breaks pyfloat "[]"] by blast
  from h have "map_of d' (Quantity b) = Some unit_price"
    by (intro price_dict_of_entry [OF pd]) simp_all
  then show "find_price_for_quantity pyfloat price_breaks (Quantity b) = Inr unit_price"
    by (simp add: find_price_for_quantity_def pd)
qed

theorem exact_match_returns_unit_price_witness:
  "list_all (\<lambda>c. decimal_float (clean_price (Price c)) \<noteq> None) example_breaks
   \<and> distinct (map Quantity example_breaks)
   \<and> \<lparr>Quantity = 10, Price = ''kr 8,0''\<rparr> \<in> set example_breaks
   \<and> decimal_float (clean_price ''kr 8,0'') = Some 8
   \<and> find_price_for_quantity decimal_float example_breaks 10 = Inr 8"
proof -
  have h1: "list_all (\<lambda>c. decimal_float (clean_price (Price c)) \<noteq> None) example_breaks"
    unfolding example_breaks_def by code_simp
  have h2: "distinct (map Quantity example_breaks)" by (simp add: example_breaks_def)
  have h3: "\<lparr>Quantity = 10, Price = ''kr 8,0''\<rparr> \<in> set example_breaks"
    by (simp add: example_breaks_def)
  have h4: "decimal_float (clean_price ''kr 8,0'') = Some 8" by code_simp
  from h1 have h1': "\<forall>c\<in>set example_breaks. decimal_float (clean_price (Price c)) \<noteq> None"
    by (simp add: list_all_iff)
  from exact_match_returns_unit_price
         [where pyfloat = decimal_float and price_breaks = example_breaks
            and b = "\<lparr>Quantity = 10, Price = ''kr 8,0''\<rparr>" and unit_price = 8]
       h1' h2 h3 h4
  have "find_price_for_quantity decimal_float example_breaks
          (Quantity \<lparr>Quantity = 10, Price = ''kr 8,0''\<rparr>) = Inr 8"
    by simp
  then have "find_price_for_quantity decimal_float example_breaks 10 = Inr 8" by simp
  with h1 h2 h3 h4 show ?thesis by (intro conjI)
qed

lemma smallest_quantity:
  assumes "d \<noteq> []"
  shows "sorted_quantities d \<noteq> []" and "last (sorted_quantities d) = Min (fst ` set d)"
proof -
  from assms have ne: "map fst d \<noteq> []" by simp
  then show "sorted_quantities d \<noteq> []"
    by (metis sorted_quantities_def length_sort length_0_conv rev_is_Nil_conv)
  show "last (sorted_quantities d) = Min (fst ` set d)"
    using hd_sort_Min [OF ne] by (simp add: sorted_quantities_def last_rev)
qed

lemma fallback_price_smallest:
  assumes "d \<noteq> []" and "Min (fst ` set d) \<noteq> 0"
  shows "\<exists>p. (Min (fst ` set d), p) \<in> set d \<and>
           fallback_price d target = Inr (p * real_of_int (target div Min (fst ` set d)))"
proof -
  have "Min (fst ` set d) \<in> fst ` set d" using assms(1) by (intro Min_in) auto
  then obtain p where look: "map_of d (Min (fst ` set d)) = Some p"
    by (metis map_of_eq_None_iff not_Some_eq)
  then have mem: "(Min (fst ` set d), p) \<in> set d" by (rule map_of_SomeD)
  obtain q qs where sq: "sorted_quantities d = q # qs"
    using smallest_quantity(1) [OF assms(1)] by (cases "sorted_quantities d") auto
  have "last (q # qs) = Min (fst ` set d)" using smallest_quantity(2) [OF assms(1)] sq by simp
  then have "fallback_price d target = Inr (p * real_of_int (target div Min (fst ` set d)))"
    using look assms(2) by (simp add: fallback_price_def sq Let_def)
  with mem show ?thesis by blast
qed

lemma greedy_loop_below:
  "\<forall>q\<in>set qs. remaining < q \<Longrightarrow> greedy_loop d qs acc remaining = Inr (acc, remaining)"
  by (induction qs) auto

text \<open>
  C4. For a non-empty list of breaks with positive quantities and a target quantity that
  is not listed, if the greedy loop ends with a total of zero then the function returns
  the unit price of the smallest listed quantity times \<open>target // smallest\<close>. The loop
  ends with zero whenever the target quantity is below the smallest listed quantity. For
  the breaks \<open>{100: 5.0}\<close> and the target quantity 50 the result is 0.
\<close>

theorem zero_total_falls_back:
  "(price_dict_of pyfloat price_breaks [] = Inr d \<and> price_breaks \<noteq> []
      \<and> (\<forall>b\<in>set price_breaks. 0 < Quantity b)
      \<and> (\<forall>b\<in>set price_breaks. Quantity b \<noteq> target_quantity)
      \<and> greedy_loop d (sorted_quantities d) 0 target_quantity = Inr (0, left)
    \<longrightarrow> (\<exists>p. (Min (Quantity ` set price_breaks), p) \<in> set d \<and>
           find_price_for_quantity pyfloat price_breaks target_quantity =
             Inr (p * real_of_int (target_quantity div Min (Quantity ` set price_breaks)))))
   \<and> (price_dict_of pyfloat price_breaks [] = Inr d
      \<and> target_quantity < Min (Quantity ` set price_breaks)
    \<longrightarrow> greedy_loop d (sorted_quantities d) 0 target_quantity = Inr (0, target_quantity))
   \<and> find_price_for_quantity decimal_float single_break 50 = Inr 0"
proof (intro conjI impI)
  show "find_price_for_quantity decimal_float single_break 50 = Inr 0"
    unfolding single_break_def by code_simp
next
  assume h: "price_dict_of pyfloat price_breaks [] = Inr d
      \<and> target_quantity < Min (Quantity ` set price_breaks)"
  then have keys: "fst ` set d = Quantity ` set price_breaks" using price_dict_keys by blast
  have "\<forall>q\<in>set (sorted_quantities d). target_quantity < q"
  proof
    fix q assume "q \<in> set (sorted_quantities d)"
    then have "q \<in> Quantity ` set price_breaks" using keys by (simp add: sorted_quantities_def)
    then have "Min (Quantity ` set price_breaks) \<le> q" by (intro Min_le) auto
    with h show "target_quantity < q" by simp
  qed
  then show "greedy_loop d (sorted_quantities d) 0 target_quantity = Inr (0, target_quantity)"
    by (rule greedy_loop_below)
next
  assume h: "price_dict_of pyfloat price_breaks [] = Inr d \<and> price_breaks \<noteq> []
      \<and> (\<forall>b\<in>set price_breaks. 0 < Quantity b)
      \<and> (\<forall>b\<in>set price_breaks. Quantity b \<noteq> target_quantity)
      \<and> greedy_loop d (sorted_quantities d) 0 target_quantity = Inr (0, left)"
  then have pd: "price_dict_of pyfloat price_breaks [] = Inr d" by simp
  have keys: "fst ` set d = Quantity ` set price_breaks" using pd by (rule price_dict_keys)
  from h keys have ne: "d \<noteq> []" by auto
  have "Min (Quantity ` set price_breaks) \<in> Quantity ` set price_breaks"
    using h by (intro Min_in) auto
  then obtain b where "b \<in> set price_breaks" "Min (Quantity ` set price_breaks) = Quantity b"
    by auto
  with h have "Min (fst ` set d) \<noteq> 0" using keys by force
  from fallback_price_smallest [OF ne this, of target_quantity] obtain p where
    p: "(Min (fst ` set d), p) \<in> set d"
       "fallback_price d target_quantity = Inr (p * real_of_int (target_quantity div Min (fst ` set d)))"
    by blast
  have "target_quantity \<notin> fst ` set d" using h keys by auto
  then have "map_of d target_quantity = None" by (simp add: map_of_eq_None_iff)
  with h p have "find_price_for_quantity pyfloat price_breaks target_quantity =
             Inr (p * real_of_int (target_quantity div Min (fst ` set d)))"
    by (simp add: find_price_for_quantity_def pd)
  with p(1) show "\<exists>p. (Min (Quantity ` set price_breaks), p) \<in> set d \<and>
           find_price_for_quantity pyfloat price_breaks target_quantity =
             Inr (p * real_of_int (target_quantity div Min (Quantity ` set price_breaks)))"
    unfolding keys by blast
qed

theorem zero_total_falls_back_witness:
  "price_dict_of decimal_float single_break [] = Inr [(100, 5)]
   \<and> single_break \<noteq> []
   \<and> list_all (\<lambda>b. 0 < Quantity b) single_break
   \<and> list_all (\<lambda>b. Quantity b \<noteq> 50) single_break
   \<and> 50 < Min (Quantity ` set single_break)
   \<and> greedy_loop [(100, 5)] (sorted_quantities [(100, 5)]) 0 50 = Inr (0, 50)
   \<and> find_price_for_quantity decimal_float single_break 50 = Inr (5 * real_of_int (50 div 100))"
proof -
  have h1: "price_dict_of decimal_float single_break [] = Inr [(100, 5)]"
    unfolding single_break_def by code_simp
  have h2: "single_break \<noteq> []" by (simp add: single_break_def)
  have h3: "\<forall>b\<in>set single_break. 0 < Quantity b" by (simp add: single_break_def)
  have h4: "\<forall>b\<in>set single_break. Quantity b \<noteq> 50" by (simp add: single_break_def)
  have h5: "50 < Min (Quantity ` set single_break)" by (simp add: single_break_def)
  have m: "Min (Quantity ` set single_break) = 100" by (simp add: single_break_def)
  note inst = zero_total_falls_back [of decimal_float single_break "[(100, 5)]" 50 50]
  from inst h1 h5
  have h6: "greedy_loop [(100, 5)] (sorted_quantities [(100, 5)]) 0 50 = Inr (0, 50)" by blast
  from inst h1 h2 h3 h4 h6
  have "\<exists>p. (Min (Quantity ` set single_break), p) \<in> set [(100, 5 :: real)] \<and>
           find_price_for_quantity decimal_float single_break 50 =
             Inr (p * real_of_int (50 div Min (Quantity ` set single_break)))"
    by blast
  then have "find_price_for_quantity decimal_float single_break 50 = Inr (5 * real_of_int (50 div 100))"
    unfolding m by auto
  with h1 h2 h3 h4 h5 h6 show ?thesis by (simp add: list_all_iff)
qed

section \<open>Properties of the fetch loop\<close>

lemma search_part_number_never_raises:
  "\<exists>evs r. search_part_number outcome part_number api_key option = (evs, Inr r)"
  by (cases outcome) (simp_all add: search_part_number_def)

lemma loop_body_success:
  assumes "net (post_count (trace s)) = Responded j" and "truthy j"
  shows "loop_body net api_key option parts s =
           s\<lparr>index := index s + 1,
             results := AList.update (parts ! index s) j (results s),
             trace := trace s @ attempt_events api_key (parts ! index s) option\<rparr>"
  using assms by (simp add: loop_body_def search_part_number_def attempt_events_def Let_def)

lemma loop_body_no_success:
  assumes "\<not> success (net (post_count (trace s)))"
  shows "loop_body net api_key option parts s =
           s\<lparr>trace := trace s @ attempt_events api_key (parts ! index s) option
                  @ search_log (net (post_count (trace s))) (parts ! index s) @ wait_events\<rparr>"
  using assms
  by (cases "net (post_count (trace s))")
     (simp_all add: loop_body_def search_part_number_def attempt_events_def search_log_def
        wait_events_def wait_time_def success_def Let_def)

lemma success_cases:
  "success outcome \<Longrightarrow> \<exists>j. outcome = Responded j \<and> truthy j"
  by (cases outcome) (simp_all add: success_def)

lemma post_count_append [simp]: "post_count (xs @ ys) = post_count xs + post_count ys"
  by (simp add: post_count_def)

lemma post_count_attempt [simp]: "post_count (attempt_events k p opt) = 1"
  by (simp add: post_count_def attempt_events_def)

lemma post_count_search_log [simp]: "post_count (search_log outcome p) = 0"
  by (cases outcome) (simp_all add: post_count_def search_log_def)

lemma post_count_wait [simp]: "post_count wait_events = 0"
  by (simp add: post_count_def wait_events_def)

lemma never_success_never_returns:
  assumes "fetch_loop net api_key option parts s = Some t"
  shows "index s < length parts \<longrightarrow> (\<exists>k. success (net (post_count (trace s) + k)))"
proof (rule fetch_loop.raw_induct
    [where P = "\<lambda>net api_key option parts s t.
        index s < length parts \<longrightarrow> (\<exists>k. success (net (post_count (trace s) + k)))",
     OF _ assms])
  fix loop :: "(nat \<Rightarrow> post_outcome) \<Rightarrow> string \<Rightarrow> string \<Rightarrow> string list \<Rightarrow> loop_state \<Rightarrow> loop_state option"
  fix net api_key option parts s t
  assume IH: "\<And>net api_key option parts s t. loop net api_key option parts s = Some t \<Longrightarrow>
        index s < length parts \<longrightarrow> (\<exists>k. success (net (post_count (trace s) + k)))"
  assume unfold: "(if index s < length parts
        then loop net api_key option parts (loop_body net api_key option parts s)
        else Some s) = Some t"
  show "index s < length parts \<longrightarrow> (\<exists>k. success (net (post_count (trace s) + k)))"
  proof
    assume lt: "index s < length parts"
    show "\<exists>k. success (net (post_count (trace s) + k))"
    proof (cases "success (net (post_count (trace s)))")
      case True
      then have "success (net (post_count (trace s) + 0))" by simp
      then show ?thesis by blast
    next
      case False
      let ?s' = "loop_body net api_key option parts s"
      from lt unfold have run: "loop net api_key option parts ?s' = Some t" by simp
      have s': "index ?s' = index s" "post_count (trace ?s') = post_count (trace s) + 1"
        using loop_body_no_success [of net s api_key option parts] False by simp_all
      from IH [OF run] s' lt obtain k where "success (net (post_count (trace s) + 1 + k))"
        by auto
      then have "success (net (post_count (trace s) + (k + 1)))"
        by (simp add: add.commute add.left_commute)
      then show ?thesis by blast
    qed
  qed
qed

lemma fetch_loop_invariant:
  assumes run: "fetch_loop net api_key option parts s = Some t"
    and init: "I s"
    and step: "\<And>s. I s \<Longrightarrow> index s < length parts \<Longrightarrow> I (loop_body net api_key option parts s)"
  shows "I t \<and> length parts \<le> index t"
proof -
  have "(net, api_key, option, parts) = (net, api_key, option, parts) \<longrightarrow> I s
          \<longrightarrow> I t \<and> length parts \<le> index t"
  proof (rule fetch_loop.raw_induct
      [where P = "\<lambda>net' api_key' option' parts' s t.
          (net', api_key', option', parts') = (net, api_key, option, parts) \<longrightarrow> I s
            \<longrightarrow> I t \<and> length parts \<le> index t",
       OF _ run])
    fix loop :: "(nat \<Rightarrow> post_outcome) \<Rightarrow> string \<Rightarrow> string \<Rightarrow> string list \<Rightarrow> loop_state \<Rightarrow> loop_state option"
    fix net' api_key' option' parts' s t
    assume IH: "\<And>net' api_key' option' parts' s t. loop net' api_key' option' parts' s = Some t \<Longrightarrow>
        (net', api_key', option', parts') = (net, api_key, option, parts) \<longrightarrow> I s
            \<longrightarrow> I t \<and> length parts \<le> index t"
    assume unfold: "(if index s < length parts'
        then loop net' api_key' option' parts' (loop_body net' api_key' option' parts' s)
        else Some s) = Some t"
    show "(net', api_key', option', parts') = (net, api_key, option, parts) \<longrightarrow> I s
            \<longrightarrow> I t \<and> length parts \<le> index t"
    proof (intro impI)
      assume eq: "(net', api_key', option', parts') = (net, api_key, option, parts)" and i: "I s"
      show "I t \<and> length parts \<le> index t"
      proof (cases "index s < length parts")
        case True
        with unfold eq have "loop net' api_key' option' parts' (loop_body net api_key option parts s) = Some t"
          by simp
        from IH [OF this] eq step [OF i True] show ?thesis by blast
      next
        case False
        with unfold eq have "t = s" by simp
        with i False show ?thesis by simp
      qed
    qed
  qed
  with init show ?thesis by simp
qed

lemma post_parts_append [simp]: "post_parts (xs @ ys) = post_parts xs @ post_parts ys"
  by (simp add: post_parts_def)

lemma post_parts_attempt [simp]: "post_parts (attempt_events k p opt) = [p]"
  by (simp add: post_parts_def attempt_events_def)

lemma post_parts_search_log [simp]: "post_parts (search_log outcome p) = []"
  by (cases outcome) (simp_all add: post_parts_def search_log_def)

lemma post_parts_wait [simp]: "post_parts wait_events = []"
  by (simp add: post_parts_def wait_events_def)

lemma length_post_parts: "length (post_parts tr) = post_count tr"
proof (induction tr)
  case Nil
  show ?case by (simp add: post_parts_def post_count_def)
next
  case (Cons e tr)
  then show ?case by (cases e) (simp_all add: post_parts_def post_count_def)
qed

lemma fetched_attempt:
  "fetched net (tr @ attempt_events k p opt @ rest) =
     fetched net tr @ (if success (net (post_count tr)) then [p] else [])
       @ map snd (filter (\<lambda>(i, p). success (net i)) (enumerate (Suc (post_count tr)) (post_parts rest)))"
  by (simp add: fetched_def enumerate_append_eq length_post_parts)

lemma loop_inv_step:
  assumes "loop_inv net parts s" and "index s < length parts"
  shows "loop_inv net parts (loop_body net api_key option parts s)"
proof (cases "success (net (post_count (trace s)))")
  case True
  then obtain j where j: "net (post_count (trace s)) = Responded j" "truthy j"
    using success_cases by blast
  have f: "fetched net (trace s @ attempt_events api_key (parts ! index s) option)
            = fetched net (trace s) @ [parts ! index s]"
    using fetched_attempt [of net "trace s" api_key "parts ! index s" option "[]"] True
    by (simp add: post_parts_def)
  show ?thesis
    using assms f
    by (simp add: loop_body_success [of net s j api_key option parts, OF j] loop_inv_def
        AList.distinct_update AList.dom_update take_Suc_conv_app_nth)
next
  case False
  have f: "fetched net (trace s @ attempt_events api_key (parts ! index s) option
              @ search_log (net (post_count (trace s))) (parts ! index s) @ wait_events)
            = fetched net (trace s)"
    using fetched_attempt [of net "trace s" api_key "parts ! index s" option
        "search_log (net (post_count (trace s))) (parts ! index s) @ wait_events"] False
    by simp
  show ?thesis
    using assms f
    by (simp add: loop_body_no_success [of net s api_key option parts, OF False] loop_inv_def)
qed

lemma loop_inv_initial: "post_count start = 0 \<Longrightarrow> loop_inv net parts (initial_state start)"
  by (simp add: loop_inv_def initial_state_def fetched_def length_post_parts [symmetric])

lemma one_entry:
  "distinct (map fst xs) \<Longrightarrow> p \<in> fst ` set xs \<Longrightarrow> length (filter (\<lambda>e. fst e = p) xs) = 1"
proof (induction xs)
  case Nil
  then show ?case by simp
next
  case (Cons x xs)
  show ?case
  proof (cases "fst x = p")
    case True
    with Cons.prems have "p \<notin> fst ` set xs" by auto
    then have "filter (\<lambda>e. fst e = p) xs = []" by (auto simp: filter_empty_conv)
    with True show ?thesis by simp
  next
    case False
    with Cons show ?thesis by auto
  qed
qed

lemma loop_inv_distinct: "loop_inv net parts s \<Longrightarrow> distinct (map fst (results s))"
  unfolding loop_inv_def by (elim conjE)

lemma loop_inv_keys: "loop_inv net parts s \<Longrightarrow> fst ` set (results s) = set (fetched net (trace s))"
  unfolding loop_inv_def by (elim conjE)

lemma loop_inv_taken: "loop_inv net parts s \<Longrightarrow> set (take (index s) parts) = fst ` set (results s)"
  unfolding loop_inv_def by (elim conjE)

lemma loop_inv_no_errors: "loop_inv net parts s \<Longrightarrow> api_error_parts s = []"
  unfolding loop_inv_def by (elim conjE)

lemma fetch_loop_inv:
  assumes "post_count start = 0"
    and run: "fetch_loop net api_key option parts (initial_state start) = Some t"
  shows "loop_inv net parts t" and "length parts \<le> index t"
proof -
  have "loop_inv net parts t \<and> length parts \<le> index t"
    using run
  proof (rule fetch_loop_invariant)
    show "loop_inv net parts (initial_state start)" using assms(1) by (rule loop_inv_initial)
  next
    fix s assume "loop_inv net parts s" "index s < length parts"
    then show "loop_inv net parts (loop_body net api_key option parts s)" by (rule loop_inv_step)
  qed
  then show "loop_inv net parts t" and "length parts \<le> index t" by (rule conjunct1, rule conjunct2)
qed

text \<open>
  C9. When the loop is entered with an empty dictionary and completes, the keys of the
  ResultSet are distinct, they are exactly the identifiers that were fetched with success,
  each of them keys exactly one entry, and they are the identifiers of the input
  sequence, whether or not that sequence repeats an identifier.
\<close>

theorem result_keys_unique:
  "post_count start = 0 \<and>
   fetch_loop net api_key option parts (initial_state start) = Some t
   \<longrightarrow> distinct (map fst (results t))
     \<and> fst ` set (results t) = set (fetched net (trace t))
     \<and> (\<forall>p \<in> set (fetched net (trace t)). length (filter (\<lambda>e. fst e = p) (results t)) = 1)
     \<and> set (fetched net (trace t)) = set parts"
proof
  assume h: "post_count start = 0 \<and>
   fetch_loop net api_key option parts (initial_state start) = Some t"
  then have h1: "post_count start = 0"
    and run: "fetch_loop net api_key option parts (initial_state start) = Some t"
    by (rule conjunct1, rule conjunct2)
  note inv = fetch_loop_inv(1) [OF h1 run] and le = fetch_loop_inv(2) [OF h1 run]
  have d: "distinct (map fst (results t))" using inv by (rule loop_inv_distinct)
  have k: "fst ` set (results t) = set (fetched net (trace t))" using inv by (rule loop_inv_keys)
  have "take (index t) parts = parts" using le by simp
  then have a: "set parts = fst ` set (results t)" using loop_inv_taken [OF inv] by simp
  have all: "set (fetched net (trace t)) = set parts" by (simp only: a k [symmetric])
  have one: "\<forall>p \<in> set (fetched net (trace t)). length (filter (\<lambda>e. fst e = p) (results t)) = 1"
  proof
    fix p assume "p \<in> set (fetched net (trace t))"
    then have "p \<in> fst ` set (results t)" unfolding k .
    with d show "length (filter (\<lambda>e. fst e = p) (results t)) = 1" by (rule one_entry)
  qed
  from d k one all show "distinct (map fst (results t))
     \<and> fst ` set (results t) = set (fetched net (trace t))
     \<and> (\<forall>p \<in> set (fetched net (trace t)). length (filter (\<lambda>e. fst e = p) (results t)) = 1)
     \<and> set (fetched net (trace t)) = set parts"
    by (intro conjI)
qed

theorem result_keys_unique_witness:
  "post_count [] = 0
   \<and> fetch_loop (\<lambda>n. Responded (JString ''ok'')) ''key'' ''Exact'' [''A'', ''A''] (initial_state [])
       = Some \<lparr>index = 2, results = [(''A'', JString ''ok'')], api_error_parts = [],
               trace = attempt_events ''key'' ''A'' ''Exact'' @ attempt_events ''key'' ''A'' ''Exact''\<rparr>
   \<and> fetched (\<lambda>n. Responded (JString ''ok''))
        (attempt_events ''key'' ''A'' ''Exact'' @ attempt_events ''key'' ''A'' ''Exact'') = [''A'', ''A'']
   \<and> length (filter (\<lambda>e. fst e = ''A'') [(''A'', JString ''ok'')]) = 1"
proof -
  let ?net = "\<lambda>n :: nat. Responded (JString ''ok'')"
  let ?t = "\<lparr>index = 2, results = [(''A'', JString ''ok'')], api_error_parts = [],
               trace = attempt_events ''key'' ''A'' ''Exact'' @ attempt_events ''key'' ''A'' ''Exact''\<rparr>"
  have h1: "post_count [] = 0" by (simp add: post_count_def)
  have h2: "fetch_loop ?net ''key'' ''Exact'' [''A'', ''A''] (initial_state []) = Some ?t"
    by code_simp
  have h3: "fetched ?net (attempt_events ''key'' ''A'' ''Exact'' @ attempt_events ''key'' ''A'' ''Exact'')
      = [''A'', ''A'']"
    by code_simp
  from result_keys_unique [of "[]" ?net "''key''" "''Exact''" "[''A'', ''A'']" ?t] h1 h2
  have "\<forall>p \<in> set (fetched ?net (trace ?t)). length (filter (\<lambda>e. fst e = p) (results ?t)) = 1"
    by blast
  then have "length (filter (\<lambda>e. fst e = ''A'') [(''A'', JString ''ok'')]) = 1"
    using h3 by simp
  with h1 h2 h3 show ?thesis by blast
qed








lemma never_success_None:
  assumes "index s < length parts" and "\<forall>k. \<not> success (net (post_count (trace s) + k))"
  shows "fetch_loop net api_key option parts s = None"
proof (cases "fetch_loop net api_key option parts s")
  case None
  then show ?thesis .
next
  case (Some t)
  from never_success_never_returns [OF Some] assms show ?thesis by blast
qed









text \<open>
  C1. The claim asks that an identifier whose request raises a transport or protocol error
  is put on the error list, that the loop advances and that the identifier never becomes a
  key of the ResultSet. The code does otherwise: \<open>search_part_number\<close> catches the
  exception and returns \<open>None\<close>, which the loop takes for a rate limit. With one
  identifier whose first request raises \<open>HTTPError\<close> and whose second request succeeds,
  the loop sleeps, posts the identifier again, stores it in the ResultSet and leaves the
  error list empty; when every request raises \<open>HTTPError\<close> the loop never returns.
\<close>

theorem transport_error_is_retried:
  "fetch_loop (\<lambda>n. if n = 0 then HTTPError else Responded (JObject [(''SearchResults'', JNull)]))
      ''key'' ''Exact'' [''P1''] (initial_state [])
     = Some \<lparr>index = 1,
             results = [(''P1'', JObject [(''SearchResults'', JNull)])],
             api_error_parts = [],
             trace = attempt_events ''key'' ''P1'' ''Exact''
               @ search_log HTTPError ''P1'' @ wait_events
               @ attempt_events ''key'' ''P1'' ''Exact''\<rparr>
   \<and> fetch_loop (\<lambda>n. HTTPError) ''key'' ''Exact'' [''P1'', ''P2''] (initial_state []) = None"
proof
  show "fetch_loop (\<lambda>n. if n = 0 then HTTPError else Responded (JObject [(''SearchResults'', JNull)]))
      ''key'' ''Exact'' [''P1''] (initial_state [])
     = Some \<lparr>index = 1,
             results = [(''P1'', JObject [(''SearchResults'', JNull)])],
             api_error_parts = [],
             trace = attempt_events ''key'' ''P1'' ''Exact''
               @ search_log HTTPError ''P1'' @ wait_events
               @ attempt_events ''key'' ''P1'' ''Exact''\<rparr>"
    by code_simp
  show "fetch_loop (\<lambda>n. HTTPError) ''key'' ''Exact'' [''P1'', ''P2''] (initial_state []) = None"
    by (rule never_success_None) (simp_all add: initial_state_def success_def)
qed

section \<open>Properties of the URL classification\<close>

lemma split_on_nonempty: "split_on sep s \<noteq> []"
  by (induction s) (auto split: list.splits)

lemma last_item_split: "last_item (split_on sep s) = Inr (last (split_on sep s))"
  using split_on_nonempty [of sep s] by (cases "split_on sep s") (simp_all add: last_item_def)

lemma classify_url_supplier:
  "urlparse url = Inr p \<Longrightarrow> sublist ''mouser.com'' (lower (netloc p)) \<Longrightarrow>
   classify_url urlparse url = Inr (Some (strip (last (split_on CHR ''/'' (path p)))))"
  by (simp add: classify_url_def last_item_split)

lemma classify_url_other:
  "urlparse url = Inr p \<Longrightarrow> \<not> sublist ''mouser.com'' (lower (netloc p)) \<Longrightarrow>
   classify_url urlparse url = Inr None"
  by (simp add: classify_url_def)

lemma classify_url_error: "urlparse url = Inl e \<Longrightarrow> classify_url urlparse url = Inl e"
  by (simp add: classify_url_def)

lemma extract_loop_classes:
  "mouser_part_numbers (extract_loop urlparse urls acc) =
     mouser_part_numbers acc @ concat (map (supplier_of urlparse) urls)
   \<and> non_mouser_urls (extract_loop urlparse urls acc) =
     non_mouser_urls acc @ filter (\<lambda>u. classify_url urlparse u = Inr None) urls
   \<and> error_urls (extract_loop urlparse urls acc) =
     error_urls acc @ filter (\<lambda>u. isl (classify_url urlparse u)) urls"
proof (induction urls arbitrary: acc)
  case Nil
  show ?case by simp
next
  case (Cons url urls)
  show ?case
    by (cases "classify_url urlparse url")
       (auto simp: Cons.IH supplier_of_def split: option.splits)
qed

lemma one_class:
  "length (concat (map (supplier_of urlparse) urls))
     + length (filter (\<lambda>u. classify_url urlparse u = Inr None) urls)
     + length (filter (\<lambda>u. isl (classify_url urlparse u)) urls) = length urls"
proof (induction urls)
  case Nil
  show ?case by simp
next
  case (Cons url urls)
  then show ?case
    by (cases "classify_url urlparse url") (auto simp: supplier_of_def split: option.splits)
qed

text \<open>
  C7 (amended). For every list of URLs the function returns three lists and raises
  nothing: every exception inside the \<open>try\<close> puts the URL on the error list. Each URL
  goes to exactly one list. A URL whose lower-cased network location contains
  \<open>mouser.com\<close> yields its final path segment with leading and trailing whitespace
  removed; any other URL that parses is a non-supplier URL; a URL that the parser rejects
  is an error URL.
\<close>

theorem url_classification:
  "mouser_part_numbers (extract_part_numbers_from_urls urlparse urls) =
       concat (map (supplier_of urlparse) urls)
   \<and> non_mouser_urls (extract_part_numbers_from_urls urlparse urls) =
       filter (\<lambda>u. classify_url urlparse u = Inr None) urls
   \<and> error_urls (extract_part_numbers_from_urls urlparse urls) =
       filter (\<lambda>u. isl (classify_url urlparse u)) urls
   \<and> length (mouser_part_numbers (extract_part_numbers_from_urls urlparse urls))
       + length (non_mouser_urls (extract_part_numbers_from_urls urlparse urls))
       + length (error_urls (extract_part_numbers_from_urls urlparse urls)) = length urls
   \<and> (urlparse url = Inr p \<and> sublist ''mouser.com'' (lower (netloc p))
        \<longrightarrow> supplier_of urlparse url = [strip (last (split_on CHR ''/'' (path p)))]
          \<and> classify_url urlparse url \<noteq> Inr None \<and> \<not> isl (classify_url urlparse url))
   \<and> (urlparse url = Inr p \<and> \<not> sublist ''mouser.com'' (lower (netloc p))
        \<longrightarrow> supplier_of urlparse url = []
          \<and> classify_url urlparse url = Inr None \<and> \<not> isl (classify_url urlparse url))
   \<and> (urlparse url = Inl e
        \<longrightarrow> supplier_of urlparse url = []
          \<and> classify_url urlparse url \<noteq> Inr None \<and> isl (classify_url urlparse url))"
proof -
  have lists: "mouser_part_numbers (extract_part_numbers_from_urls urlparse urls) =
       concat (map (supplier_of urlparse) urls)"
    "non_mouser_urls (extract_part_numbers_from_urls urlparse urls) =
       filter (\<lambda>u. classify_url urlparse u = Inr None) urls"
   "error_urls (extract_part_numbers_from_urls urlparse urls) =
       filter (\<lambda>u. isl (classify_url urlparse u)) urls"
    using extract_loop_classes [of urlparse urls
        "\<lparr>mouser_part_numbers = [], non_mouser_urls = [], error_urls = [], printed = []\<rparr>"]
    by (simp_all add: extract_part_numbers_from_urls_def)
  have count: "length (mouser_part_numbers (extract_part_numbers_from_urls urlparse urls))
       + length (non_mouser_urls (extract_part_numbers_from_urls urlparse urls))
       + length (error_urls (extract_part_numbers_from_urls urlparse urls)) = length urls"
    unfolding lists by (rule one_class)
  have a: "urlparse url = Inr p \<and> sublist ''mouser.com'' (lower (netloc p))
        \<longrightarrow> supplier_of urlparse url = [strip (last (split_on CHR ''/'' (path p)))]
          \<and> classify_url urlparse url \<noteq> Inr None \<and> \<not> isl (classify_url urlparse url)"
    by (simp add: supplier_of_def classify_url_supplier)
  have b: "urlparse url = Inr p \<and> \<not> sublist ''mouser.com'' (lower (netloc p))
        \<longrightarrow> supplier_of urlparse url = []
          \<and> classify_url urlparse url = Inr None \<and> \<not> isl (classify_url urlparse url)"
    by (simp add: supplier_of_def classify_url_other)
  have c: "urlparse url = Inl e
        \<longrightarrow> supplier_of urlparse url = []
          \<and> classify_url urlparse url \<noteq> Inr None \<and> isl (classify_url urlparse url)"
    by (simp add: supplier_of_def classify_url_error)
  from lists count a b c show ?thesis by (intro conjI)
qed

theorem url_classification_witness:
  "simple_urlparse (sample_urls ! 0) = Inr \<lparr>netloc = ''www.mouser.com'', path = ''/ProductDetail/595-TPS54331DR''\<rparr>
   \<and> sublist ''mouser.com'' (lower ''www.mouser.com'')
   \<and> supplier_of simple_urlparse (sample_urls ! 0) = [''595-TPS54331DR'']
   \<and> simple_urlparse (sample_urls ! 1) = Inr \<lparr>netloc = ''example.org'', path = ''/datasheets/part.pdf''\<rparr>
   \<and> \<not> sublist ''mouser.com'' (lower ''example.org'')
   \<and> classify_url simple_urlparse (sample_urls ! 1) = Inr None
   \<and> simple_urlparse (sample_urls ! 2) = Inl ValueError
   \<and> isl (classify_url simple_urlparse (sample_urls ! 2))
   \<and> extract_part_numbers_from_urls simple_urlparse sample_urls =
        \<lparr>mouser_part_numbers = [''595-TPS54331DR''],
         non_mouser_urls = [''https://example.org/datasheets/part.pdf''],
         error_urls = [''http://[broken/x''],
         printed = [Log (''Error processing URL '' @ quoted ''http://[broken/x'' @ '': '')]\<rparr>"
proof -
  have p0: "simple_urlparse (sample_urls ! 0) =
      Inr \<lparr>netloc = ''www.mouser.com'', path = ''/ProductDetail/595-TPS54331DR''\<rparr>"
    unfolding sample_urls_def by code_simp
  have m0: "sublist ''mouser.com'' (lower ''www.mouser.com'')" by code_simp
  have p1: "simple_urlparse (sample_urls ! 1) =
      Inr \<lparr>netloc = ''example.org'', path = ''/datasheets/part.pdf''\<rparr>"
    unfolding sample_urls_def by code_simp
  have m1: "\<not> sublist ''mouser.com'' (lower ''example.org'')" by code_simp
  have p2: "simple_urlparse (sample_urls ! 2) = Inl ValueError"
    unfolding sample_urls_def by code_simp
  have seg: "strip (last (split_on CHR ''/'' ''/ProductDetail/595-TPS54331DR'')) = ''595-TPS54331DR''"
    by code_simp
  have all: "extract_part_numbers_from_urls simple_urlparse sample_urls =
        \<lparr>mouser_part_numbers = [''595-TPS54331DR''],
         non_mouser_urls = [''https://example.org/datasheets/part.pdf''],
         error_urls = [''http://[broken/x''],
         printed = [Log (''Error processing URL '' @ quoted ''http://[broken/x'' @ '': '')]\<rparr>"
    unfolding sample_urls_def by code_simp
  from url_classification [of simple_urlparse sample_urls "sample_urls ! 0"
      "\<lparr>netloc = ''www.mouser.com'', path = ''/ProductDetail/595-TPS54331DR''\<rparr>"] p0 m0
  have c0: "supplier_of simple_urlparse (sample_urls ! 0) =
      [strip (last (split_on CHR ''/'' ''/ProductDetail/595-TPS54331DR''))]"
    by simp
  from url_classification [of simple_urlparse sample_urls "sample_urls ! 1"
      "\<lparr>netloc = ''example.org'', path = ''/datasheets/part.pdf''\<rparr>"] p1 m1
  have c1: "classify_url simple_urlparse (sample_urls ! 1) = Inr None"
    by simp
  from url_classification [of simple_urlparse sample_urls "sample_urls ! 2" _ ValueError] p2
  have c2: "isl (classify_url simple_urlparse (sample_urls ! 2))"
    by blast
  from c0 seg have c0': "supplier_of simple_urlparse (sample_urls ! 0) = [''595-TPS54331DR'']"
    by simp
  from p0 m0 c0' p1 m1 c1 p2 c2 all show ?thesis by (intro conjI)
qed

text \<open>
  C7 as stated fails: the identifier is not always equal to the final path segment. The
  path of the URL below ends in a space, which line 211 strips.
\<close>

theorem url_identifier_is_stripped_counterexample:
  "simple_urlparse ''https://www.mouser.com/ProductDetail/595-TPS54331DR ?qs=abc''
     = Inr \<lparr>netloc = ''www.mouser.com'', path = ''/ProductDetail/595-TPS54331DR ''\<rparr>
   \<and> sublist ''mouser.com'' (lower ''www.mouser.com'')
   \<and> last (split_on CHR ''/'' ''/ProductDetail/595-TPS54331DR '') = ''595-TPS54331DR ''
   \<and> mouser_part_numbers (extract_part_numbers_from_urls simple_urlparse
        [''https://www.mouser.com/ProductDetail/595-TPS54331DR ?qs=abc'']) = [''595-TPS54331DR'']
   \<and> mouser_part_numbers (extract_part_numbers_from_urls simple_urlparse
        [''https://www.mouser.com/ProductDetail/595-TPS54331DR ?qs=abc''])
       \<noteq> [last (split_on CHR ''/'' ''/ProductDetail/595-TPS54331DR '')]"
  by code_simp

text \<open>
  C10 (amended). Whether a URL is a supplier URL is decided by a substring test on the
  lower-cased network location alone: every URL whose lower-cased network location
  contains \<open>mouser.com\<close> anywhere (\<open>notmouser.com\<close>, \<open>mouser.com.example.net\<close>) is
  treated as a supplier URL, and its final path segment with leading and trailing
  whitespace removed becomes the PartIdentifier; a URL whose network location does not
  contain it is not.
\<close>

theorem supplier_test_is_substring:
  "(urlparse url = Inr p \<and> sublist ''mouser.com'' (lower (netloc p)) \<longrightarrow>
      extract_part_numbers_from_urls urlparse [url] =
        \<lparr>mouser_part_numbers = [strip (last (split_on CHR ''/'' (path p)))],
         non_mouser_urls = [], error_urls = [], printed = []\<rparr>)
   \<and> (urlparse url = Inr p \<and> \<not> sublist ''mouser.com'' (lower (netloc p)) \<longrightarrow>
      extract_part_numbers_from_urls urlparse [url] =
        \<lparr>mouser_part_numbers = [], non_mouser_urls = [url], error_urls = [], printed = []\<rparr>)"
  by (simp add: extract_part_numbers_from_urls_def classify_url_supplier classify_url_other)

theorem supplier_test_is_substring_witness:
  "simple_urlparse ''http://notmouser.com/parts/X1'' = Inr \<lparr>netloc = ''notmouser.com'', path = ''/parts/X1''\<rparr>
   \<and> sublist ''mouser.com'' (lower ''notmouser.com'')
   \<and> extract_part_numbers_from_urls simple_urlparse [''http://notmouser.com/parts/X1''] =
        \<lparr>mouser_part_numbers = [''X1''], non_mouser_urls = [], error_urls = [], printed = []\<rparr>
   \<and> simple_urlparse ''http://Mouser.COM.example.net/shop/Y2''
        = Inr \<lparr>netloc = ''Mouser.COM.example.net'', path = ''/shop/Y2''\<rparr>
   \<and> sublist ''mouser.com'' (lower ''Mouser.COM.example.net'')
   \<and> extract_part_numbers_from_urls simple_urlparse [''http://Mouser.COM.example.net/shop/Y2''] =
        \<lparr>mouser_part_numbers = [''Y2''], non_mouser_urls = [], error_urls = [], printed = []\<rparr>
   \<and> simple_urlparse ''http://mouser.example.com/a'' = Inr \<lparr>netloc = ''mouser.example.com'', path = ''/a''\<rparr>
   \<and> \<not> sublist ''mouser.com'' (lower ''mouser.example.com'')
   \<and> extract_part_numbers_from_urls simple_urlparse [''http://mouser.example.com/a''] =
        \<lparr>mouser_part_numbers = [], non_mouser_urls = [''http://mouser.example.com/a''],
         error_urls = [], printed = []\<rparr>"
proof -
  have p1: "simple_urlparse ''http://notmouser.com/parts/X1''
      = Inr \<lparr>netloc = ''notmouser.com'', path = ''/parts/X1''\<rparr>" by code_simp
  have m1: "sublist ''mouser.com'' (lower ''notmouser.com'')" by code_simp
  have s1: "strip (last (split_on CHR ''/'' ''/parts/X1'')) = ''X1''" by code_simp
  have p2: "simple_urlparse ''http://Mouser.COM.example.net/shop/Y2''
      = Inr \<lparr>netloc = ''Mouser.COM.example.net'', path = ''/shop/Y2''\<rparr>" by code_simp
  have m2: "sublist ''mouser.com'' (lower ''Mouser.COM.example.net'')" by code_simp
  have s2: "strip (last (split_on CHR ''/'' ''/shop/Y2'')) = ''Y2''" by code_simp
  have p3: "simple_urlparse ''http://mouser.example.com/a''
      = Inr \<lparr>netloc = ''mouser.example.com'', path = ''/a''\<rparr>" by code_simp
  have m3: "\<not> sublist ''mouser.com'' (lower ''mouser.example.com'')" by code_simp
  from supplier_test_is_substring [of simple_urlparse "''http://notmouser.com/parts/X1''"
      "\<lparr>netloc = ''notmouser.com'', path = ''/parts/X1''\<rparr>"] p1 m1 s1
  have c1: "extract_part_numbers_from_urls simple_urlparse [''http://notmouser.com/parts/X1''] =
        \<lparr>mouser_part_numbers = [''X1''], non_mouser_urls = [], error_urls = [], printed = []\<rparr>"
    by simp
  from supplier_test_is_substring [of simple_urlparse "''http://Mouser.COM.example.net/shop/Y2''"
      "\<lparr>netloc = ''Mouser.COM.example.net'', path = ''/shop/Y2''\<rparr>"] p2 m2 s2
  have c2: "extract_part_numbers_from_urls simple_urlparse [''http://Mouser.COM.example.net/shop/Y2''] =
        \<lparr>mouser_part_numbers = [''Y2''], non_mouser_urls = [], error_urls = [], printed = []\<rparr>"
    by simp
  from supplier_test_is_substring [of simple_urlparse "''http://mouser.example.com/a''"
      "\<lparr>netloc = ''mouser.example.com'', path = ''/a''\<rparr>"] p3 m3
  have c3: "extract_part_numbers_from_urls simple_urlparse [''http://mouser.example.com/a''] =
        \<lparr>mouser_part_numbers = [], non_mouser_urls = [''http://mouser.example.com/a''],
         error_urls = [], printed = []\<rparr>"
    by simp
  from p1 m1 c1 p2 m2 c2 p3 m3 c3 show ?thesis by (intro conjI)
qed

text \<open>
  C10 as stated fails in its last part: on a host that merely contains \<open>mouser.com\<close> the
  identifier is the stripped segment, not the final path segment itself.
\<close>

theorem substring_host_identifier_counterexample:
  "simple_urlparse ''https://notmouser.com/catalog/ABC-1 #top''
     = Inr \<lparr>netloc = ''notmouser.com'', path = ''/catalog/ABC-1 ''\<rparr>
   \<and> sublist ''mouser.com'' (lower ''notmouser.com'')
   \<and> last (split_on CHR ''/'' ''/catalog/ABC-1 '') = ''ABC-1 ''
   \<and> mouser_part_numbers (extract_part_numbers_from_urls simple_urlparse
        [''https://notmouser.com/catalog/ABC-1 #top'']) = [''ABC-1'']
   \<and> mouser_part_numbers (extract_part_numbers_from_urls simple_urlparse
        [''https://notmouser.com/catalog/ABC-1 #top''])
       \<noteq> [last (split_on CHR ''/'' ''/catalog/ABC-1 '')]"
  by code_simp

lemma strip_Nil [simp]: "strip [] = []"
  by (simp add: strip_def)

lemma get_api_key_env:
  "env_supplied_key env = Some k \<Longrightarrow> get_api_key env cfg = Inr k"
  by (auto simp: env_supplied_key_def get_api_key_def get_api_key_body_def
      split: option.splits if_splits)

lemma get_api_key_config:
  "env_supplied_key env = None \<Longrightarrow> config_supplied_key cfg = Some k \<Longrightarrow>
   get_api_key env cfg = Inr k"
  by (auto simp: env_supplied_key_def config_supplied_key_def get_api_key_def get_api_key_body_def
      split: option.splits if_splits config_file.splits yaml_doc.splits yaml_value.splits)

lemma get_api_key_neither:
  "env_supplied_key env = None \<Longrightarrow> config_supplied_key cfg = None \<Longrightarrow>
   \<exists>e. get_api_key env cfg = Inl e"
  by (auto simp: env_supplied_key_def config_supplied_key_def get_api_key_def get_api_key_body_def
      split: option.splits if_splits config_file.splits yaml_doc.splits yaml_value.splits
        py_error.splits)

section \<open>Properties of the credential lookup\<close>

text \<open>
  C8. When the environment variable is set and not empty, \<open>get_api_key\<close> returns its value
  whatever the configuration file is (also when there is none). When the variable is
  absent or empty, the key is the one the configuration file supplies. When neither
  supplies a key, \<open>get_api_key\<close> raises; and whenever it raises,
  \<open>read_csv_and_search_parts\<close> raises the same exception with nothing printed, posted or
  slept: no request has been issued.
\<close>

theorem api_key_sources:
  "(env_supplied_key env = Some k \<longrightarrow> get_api_key env cfg = Inr k)
   \<and> (env_supplied_key env = None \<and> config_supplied_key cfg = Some k
        \<longrightarrow> get_api_key env cfg = Inr k)
   \<and> (env_supplied_key env = None \<and> config_supplied_key cfg = None
        \<longrightarrow> (\<exists>e. get_api_key env cfg = Inl e))
   \<and> (get_api_key env cfg = Inl e
        \<longrightarrow> read_csv_and_search_parts env cfg csv urlparse net option = Some ([], Inl e))"
  using get_api_key_env [of env k cfg] get_api_key_config [of env cfg k]
    get_api_key_neither [of env cfg]
  by (simp add: read_csv_and_search_parts_def)

theorem api_key_sources_witness:
  "env_supplied_key (Some ''ENVKEY'') = Some ''ENVKEY''
   \<and> get_api_key (Some ''ENVKEY'') Missing = Inr ''ENVKEY''
   \<and> env_supplied_key (Some []) = None
   \<and> config_supplied_key (Loaded (YMapping [(''search_api_key'', YStr '' filekey '')])) = Some ''filekey''
   \<and> get_api_key (Some []) (Loaded (YMapping [(''search_api_key'', YStr '' filekey '')])) = Inr ''filekey''
   \<and> env_supplied_key None = None
   \<and> config_supplied_key Missing = None
   \<and> get_api_key None Missing = Inl FileNotFoundError
   \<and> read_csv_and_search_parts None Missing
        \<lparr>fieldnames = Some [''Datasheet''], datasheet_cells = [Some ''https://www.mouser.com/a/B'']\<rparr>
        simple_urlparse (\<lambda>n. Responded (JString ''ok'')) ''Exact''
       = Some ([], Inl FileNotFoundError)"
proof -
  have e1: "env_supplied_key (Some ''ENVKEY'') = Some ''ENVKEY''" by code_simp
  have e2: "env_supplied_key (Some []) = None" by code_simp
  have e3: "env_supplied_key None = None" by code_simp
  have f2: "config_supplied_key (Loaded (YMapping [(''search_api_key'', YStr '' filekey '')]))
      = Some ''filekey''" by code_simp
  have f3: "config_supplied_key Missing = None" by code_simp
  have g3: "get_api_key None Missing = Inl FileNotFoundError" by code_simp
  from api_key_sources [of "Some ''ENVKEY''" "''ENVKEY''" Missing] e1
  have c1: "get_api_key (Some ''ENVKEY'') Missing = Inr ''ENVKEY''" by blast
  from api_key_sources [of "Some []" "''filekey''"
      "Loaded (YMapping [(''search_api_key'', YStr '' filekey '')])"] e2 f2
  have c2: "get_api_key (Some []) (Loaded (YMapping [(''search_api_key'', YStr '' filekey '')]))
      = Inr ''filekey''" by blast
  from api_key_sources [of None _ Missing FileNotFoundError
      "\<lparr>fieldnames = Some [''Datasheet''], datasheet_cells = [Some ''https://www.mouser.com/a/B'']\<rparr>"
      simple_urlparse "\<lambda>n. Responded (JString ''ok'')" "''Exact''"] g3
  have c3: "read_csv_and_search_parts None Missing
        \<lparr>fieldnames = Some [''Datasheet''], datasheet_cells = [Some ''https://www.mouser.com/a/B'']\<rparr>
        simple_urlparse (\<lambda>n. Responded (JString ''ok'')) ''Exact''
       = Some ([], Inl FileNotFoundError)" by blast
  from e1 c1 e2 f2 c2 e3 f3 g3 c3 show ?thesis by (intro conjI)
qed

end
